theory Spec2Isabelle
  imports Complex_Main "HOL-Library.AList"
begin

section \<open>Python built-ins used by \<^verbatim>\<open>kolibri_daemon/application.py\<close>\<close>

text \<open>
  \<^verbatim>\<open>str(n)\<close> for a Python \<^verbatim>\<open>int\<close>: the decimal digits, most significant first, with a
  leading minus sign for a negative number.
\<close>

definition digit_char :: "nat \<Rightarrow> char" where
  "digit_char d = ''0123456789'' ! d"

function str_nat :: "nat \<Rightarrow> string" where
  "str_nat n = (if n < 10 then [digit_char n]
                else str_nat (n div 10) @ [digit_char (n mod 10)])"
  by pat_completeness auto
termination
  by (relation "measure id") auto

definition str_int :: "int \<Rightarrow> string" where
  "str_int i = (if i < 0 then CHR ''-'' # str_nat (nat (- i)) else str_nat (nat i))"

text \<open>
  \<^verbatim>\<open>s.partition(sep)\<close> for a one-character separator: the part before the first
  occurrence, the separator, the part after it; \<^verbatim>\<open>(s, "", "")\<close> when \<^verbatim>\<open>sep\<close> does not occur.
\<close>

definition str_partition :: "char \<Rightarrow> string \<Rightarrow> string \<times> string \<times> string" where
  "str_partition sep s =
     (if sep \<in> set s
      then (takeWhile (\<lambda>c. c \<noteq> sep) s, [sep], tl (dropWhile (\<lambda>c. c \<noteq> sep) s))
      else (s, [], []))"

text \<open>
  Truthiness of a GLib source handle stored in an attribute that starts as \<^verbatim>\<open>None\<close>:
  \<^verbatim>\<open>None\<close> and \<^verbatim>\<open>0\<close> are false, every other id is true.
\<close>

definition truthy :: "nat option \<Rightarrow> bool" where
  "truthy h = (case h of None \<Rightarrow> False | Some n \<Rightarrow> n \<noteq> 0)"


section \<open>UserDetail and LoginToken\<close>

record UserDetail =
  user_id :: int
  user_name :: string
  full_name :: string
  is_admin :: bool

text \<open>
  \<^verbatim>\<open>expires\<close> holds a reading of \<^verbatim>\<open>time.monotonic()\<close> plus the lifetime. The clock is
  injected: every operation below takes the reading \<open>now\<close> that \<^verbatim>\<open>time.monotonic()\<close> returns
  during that call (one event-loop turn, one reading). Readings are Python floats, taken
  here as the real numbers they denote. Comparing two of them is exact; adding the
  lifetime to a reading is a float addition, which rounds the real sum to a float. That
  rounding is the parameter \<open>fl\<close> of \<open>with_expire_time\<close> and of every function that
  reaches it.
\<close>

record LoginToken =
  user :: UserDetail
  key :: string
  expires :: real

definition with_expire_time ::
  "(real \<Rightarrow> real) \<Rightarrow> real \<Rightarrow> real \<Rightarrow> UserDetail \<Rightarrow> string \<Rightarrow> LoginToken" where
  "with_expire_time fl now expires_in u k =
     \<lparr>user = u, key = k, expires = fl (now + expires_in)\<rparr>"

definition is_expired :: "real \<Rightarrow> LoginToken \<Rightarrow> bool" where
  "is_expired now t = (expires t < now)"


section \<open>LoginTokenManager\<close>

text \<open>
  The manager's state is the dictionary \<^verbatim>\<open>__login_tokens\<close>, from the decimal user id to
  the user's token. \<^verbatim>\<open>uuid4().hex\<close> is random: the value it returns is the parameter \<open>hex\<close>.
  A method that returns a value and mutates the dictionary returns both. The private
  methods keep their names without the underscores; \<^verbatim>\<open>__pop_login_token\<close> is
  \<open>pop_login_token_inner\<close>, since the public method has the same name. Strings are
  lists of bytes: the separator is ASCII, so splitting a UTF-8 string at the first colon
  is the same on bytes and on code points.
\<close>

type_synonym login_tokens = "string \<rightharpoonup> LoginToken"

definition TOKEN_EXPIRE_TIME :: real where
  "TOKEN_EXPIRE_TIME = 60"

definition revoke_expired_tokens :: "real \<Rightarrow> login_tokens \<Rightarrow> login_tokens" where
  "revoke_expired_tokens now s =
     (\<lambda>uid. case s uid of
               None \<Rightarrow> None
             | Some login_token \<Rightarrow> if \<not> is_expired now login_token then Some login_token else None)"

definition generate_token_key :: "string \<Rightarrow> string \<Rightarrow> string" where
  "generate_token_key uid hex = uid @ '':'' @ hex"

definition add_login_token ::
  "(real \<Rightarrow> real) \<Rightarrow> real \<Rightarrow> string \<Rightarrow> login_tokens \<Rightarrow> UserDetail
     \<Rightarrow> LoginToken \<times> login_tokens" where
  "add_login_token fl now hex s user_detail =
     (let uid = str_int (user_id user_detail);
          token_key = generate_token_key uid hex;
          login_token = with_expire_time fl now TOKEN_EXPIRE_TIME user_detail token_key
      in (login_token, s(uid \<mapsto> login_token)))"

definition pop_login_token_inner ::
  "login_tokens \<Rightarrow> string \<Rightarrow> LoginToken option \<times> login_tokens" where
  "pop_login_token_inner s token_key =
     (let uid = fst (str_partition CHR '':'' token_key) in
      case s uid of
        Some login_token \<Rightarrow>
          if key login_token = token_key then (Some login_token, s(uid := None))
          else (None, s)
      | None \<Rightarrow> (None, s))"

definition generate_for_user ::
  "(real \<Rightarrow> real) \<Rightarrow> real \<Rightarrow> string \<Rightarrow> login_tokens \<Rightarrow> UserDetail
     \<Rightarrow> LoginToken \<times> login_tokens" where
  "generate_for_user fl now hex s user_detail =
     add_login_token fl now hex (revoke_expired_tokens now s) user_detail"

definition pop_login_token ::
  "real \<Rightarrow> login_tokens \<Rightarrow> string \<Rightarrow> LoginToken option \<times> login_tokens" where
  "pop_login_token now s token_key =
     pop_login_token_inner (revoke_expired_tokens now s) token_key"

text \<open>
  Histories of the store: the calls that reach the manager, each with its clock reading
  (and, for a generation, the random suffix it drew), applied in arrival order to the
  dictionary, every generation rounding its sum with the same \<open>fl\<close>.
\<close>

datatype token_op =
    GenerateForUser real string UserDetail
  | PopToken real string

fun token_step :: "(real \<Rightarrow> real) \<Rightarrow> login_tokens \<Rightarrow> token_op \<Rightarrow> login_tokens" where
  "token_step fl s (GenerateForUser now hex u) = snd (generate_for_user fl now hex s u)"
| "token_step fl s (PopToken now k) = snd (pop_login_token now s k)"

definition run_token_ops ::
  "(real \<Rightarrow> real) \<Rightarrow> token_op list \<Rightarrow> login_tokens \<Rightarrow> login_tokens" where
  "run_token_ops fl ops s = foldl (token_step fl) s ops"

text \<open>
  An operation that does not issue the key \<open>u:h\<close> again: a redemption, a generation for another
  user id, or a generation for \<open>u\<close> that drew another random suffix.
\<close>

fun no_reissue :: "int \<Rightarrow> string \<Rightarrow> token_op \<Rightarrow> bool" where
  "no_reissue uid h (GenerateForUser now hex u) = (user_id u \<noteq> uid \<or> hex \<noteq> h)"
| "no_reissue uid h (PopToken now k) = True"

text \<open>An operation that is not a generation for the user id \<open>uid\<close>.\<close>

fun not_generate_for :: "int \<Rightarrow> token_op \<Rightarrow> bool" where
  "not_generate_for uid (GenerateForUser now hex u) = (user_id u \<noteq> uid)"
| "not_generate_for uid (PopToken now k) = True"


section \<open>The service manager and the GLib main loop, as the daemon uses them\<close>

text \<open>
  \<^verbatim>\<open>KolibriServiceManager\<close> lives in \<^verbatim>\<open>kolibri_service.py\<close>, outside this file. The daemon
  only calls \<^verbatim>\<open>cleanup()\<close>, \<^verbatim>\<open>is_running()\<close> and \<^verbatim>\<open>stop_kolibri()\<close> on it in the code
  modelled here, so the manager is a parameter: a state of any type \<open>'sm\<close> and the three
  methods on it. \<^verbatim>\<open>is_running()\<close> is a query and leaves the state alone.
\<close>

record 'sm ServiceManager =
  sm_cleanup :: "'sm \<Rightarrow> 'sm"
  sm_is_running :: "'sm \<Rightarrow> bool"
  sm_stop_kolibri :: "'sm \<Rightarrow> 'sm"

text \<open>
  The GLib main context: the pending timeout sources, by source id, each with its interval
  in seconds and the callback it runs. \<^verbatim>\<open>GLib.timeout_add_seconds\<close> picks the id of a new
  source (documented to be greater than 0); the id it picks is the parameter \<open>sid\<close> of the
  functions that may call it. A callback that returns \<^verbatim>\<open>SOURCE_REMOVE\<close> has its source
  destroyed by the main loop.
\<close>

datatype callback = Auto_stop_timeout_cb | Stop_kolibri_timeout_cb

type_synonym main_context = "nat \<rightharpoonup> int \<times> callback"

definition SOURCE_CONTINUE :: bool where
  "SOURCE_CONTINUE = True"

definition SOURCE_REMOVE :: bool where
  "SOURCE_REMOVE = False"

definition timeout_add_seconds ::
  "nat \<Rightarrow> int \<Rightarrow> callback \<Rightarrow> main_context \<Rightarrow> main_context" where
  "timeout_add_seconds sid interval cb g = g(sid \<mapsto> (interval, cb))"

definition source_remove :: "nat \<Rightarrow> main_context \<Rightarrow> main_context" where
  "source_remove sid g = g(sid := None)"

definition after_dispatch :: "nat \<Rightarrow> bool \<Rightarrow> main_context \<Rightarrow> main_context" where
  "after_dispatch sid result g = (if result = SOURCE_REMOVE then g(sid := None) else g)"


section \<open>PublicDBusInterface\<close>

text \<open>
  The attributes the session controller reads and writes. \<^verbatim>\<open>__hold_clients\<close> maps the
  sender name of a holding client to the id of its bus-name watch; it is an association
  list in insertion order, one entry per key, so that \<^verbatim>\<open>len\<close> is its length.
  The watch id that \<^verbatim>\<open>Gio.bus_watch_name_on_connection\<close> returns is the parameter
  \<open>watch_id\<close>; the connection only travels to that call. The D-Bus skeleton, the search
  handler, the accounts service and the handles of the two periodic timers are left out:
  none of the functions below reads them.
\<close>

record 'sm PublicDBusInterface =
  service_manager :: 'sm
  stop_kolibri_timeout_source :: "nat option"
  stop_kolibri_timeout_interval :: int
  hold_clients :: "(string \<times> nat) list"

definition DEFAULT_STOP_KOLIBRI_TIMEOUT_SECONDS :: int where
  "DEFAULT_STOP_KOLIBRI_TIMEOUT_SECONDS = 60"

definition PublicDBusInterface_init :: "'sm \<Rightarrow> 'sm PublicDBusInterface" where
  "PublicDBusInterface_init sm =
     \<lparr>service_manager = sm,
      stop_kolibri_timeout_source = None,
      stop_kolibri_timeout_interval = DEFAULT_STOP_KOLIBRI_TIMEOUT_SECONDS,
      hold_clients = []\<rparr>"

definition clients_count :: "'sm PublicDBusInterface \<Rightarrow> nat" where
  "clients_count p = length (hold_clients p)"

definition hold_for_client ::
  "nat \<Rightarrow> string \<Rightarrow> 'sm PublicDBusInterface \<Rightarrow> 'sm PublicDBusInterface" where
  "hold_for_client watch_id name p =
     (if name \<in> set (map fst (hold_clients p)) then p
      else p\<lparr>hold_clients := AList.update name watch_id (hold_clients p)\<rparr>)"

definition release_for_client ::
  "string \<Rightarrow> 'sm PublicDBusInterface \<Rightarrow> 'sm PublicDBusInterface" where
  "release_for_client name p =
     (case map_of (hold_clients p) name of
        None \<Rightarrow> p
      | Some watch_id \<Rightarrow> p\<lparr>hold_clients := AList.delete name (hold_clients p)\<rparr>)"

definition on_hold_client_vanished ::
  "string \<Rightarrow> 'sm PublicDBusInterface \<Rightarrow> 'sm PublicDBusInterface" where
  "on_hold_client_vanished name p = release_for_client name p"

text \<open>
  Histories of the registry: \<^verbatim>\<open>Hold\<close> and \<^verbatim>\<open>Release\<close> calls by sender name, and the
  name-vanished notifications of the bus.
\<close>

datatype hold_op = Hold nat string | Release string | Vanished string

fun hold_step :: "'sm PublicDBusInterface \<Rightarrow> hold_op \<Rightarrow> 'sm PublicDBusInterface" where
  "hold_step p (Hold watch_id name) = hold_for_client watch_id name p"
| "hold_step p (Release name) = release_for_client name p"
| "hold_step p (Vanished name) = on_hold_client_vanished name p"

definition run_hold_ops ::
  "hold_op list \<Rightarrow> 'sm PublicDBusInterface \<Rightarrow> 'sm PublicDBusInterface" where
  "run_hold_ops ops p = foldl hold_step p ops"

text \<open>
  The registry as the specification describes it: the set of client identities held
  after a history, a \<^verbatim>\<open>Hold\<close> adding its client and a \<^verbatim>\<open>Release\<close> or a disconnect
  removing it.
\<close>

fun held_spec_step :: "string set \<Rightarrow> hold_op \<Rightarrow> string set" where
  "held_spec_step H (Hold watch_id name) = insert name H"
| "held_spec_step H (Release name) = H - {name}"
| "held_spec_step H (Vanished name) = H - {name}"

definition held_spec :: "hold_op list \<Rightarrow> string set" where
  "held_spec ops = foldl held_spec_step {} ops"

definition begin_stop_kolibri_timeout ::
  "nat \<Rightarrow> main_context \<times> 'sm PublicDBusInterface \<Rightarrow> main_context \<times> 'sm PublicDBusInterface" where
  "begin_stop_kolibri_timeout sid gp =
     (let (g, p) = gp in
      if truthy (stop_kolibri_timeout_source p) then (g, p)
      else (timeout_add_seconds sid (stop_kolibri_timeout_interval p) Stop_kolibri_timeout_cb g,
            p\<lparr>stop_kolibri_timeout_source := Some sid\<rparr>))"

definition cancel_stop_kolibri_timeout ::
  "main_context \<times> 'sm PublicDBusInterface \<Rightarrow> main_context \<times> 'sm PublicDBusInterface" where
  "cancel_stop_kolibri_timeout gp =
     (let (g, p) = gp in
      if truthy (stop_kolibri_timeout_source p)
      then (source_remove (the (stop_kolibri_timeout_source p)) g,
            p\<lparr>stop_kolibri_timeout_source := None\<rparr>)
      else (g, p))"

definition stop_kolibri_timeout_cb ::
  "'sm ServiceManager \<Rightarrow> 'sm PublicDBusInterface \<Rightarrow> 'sm PublicDBusInterface \<times> bool" where
  "stop_kolibri_timeout_cb M p =
     (let p1 = (if clients_count p = 0
                then p\<lparr>service_manager := sm_stop_kolibri M (service_manager p)\<rparr>
                else p)
      in (p1\<lparr>stop_kolibri_timeout_source := None\<rparr>, SOURCE_REMOVE))"


section \<open>Application\<close>

text \<open>
  \<^verbatim>\<open>use_count\<close> is the hold count of \<^verbatim>\<open>Gio.Application\<close>: \<^verbatim>\<open>hold()\<close> adds one,
  \<^verbatim>\<open>release()\<close> takes one away. A hold token is any hashable object; its type is \<open>'t\<close>.
  \<open>Application_init\<close> is the state that \<^verbatim>\<open>__init__\<close> leaves, around the service manager
  that the public interface has created.
\<close>

record ('sm, 't) Application =
  public_interface :: "'sm PublicDBusInterface"
  login_token_manager :: login_tokens
  hold_tokens :: "'t set"
  use_count :: int
  use_session_bus :: "bool option"
  use_system_bus :: "bool option"

definition Application_init :: "'sm \<Rightarrow> ('sm, 't) Application" where
  "Application_init sm =
     \<lparr>public_interface = PublicDBusInterface_init sm,
      login_token_manager = Map.empty,
      hold_tokens = {},
      use_count = 0,
      use_session_bus = None,
      use_system_bus = None\<rparr>"

definition g_application_hold :: "('sm, 't) Application \<Rightarrow> ('sm, 't) Application" where
  "g_application_hold a = a\<lparr>use_count := use_count a + 1\<rparr>"

definition g_application_release :: "('sm, 't) Application \<Rightarrow> ('sm, 't) Application" where
  "g_application_release a = a\<lparr>use_count := use_count a - 1\<rparr>"

definition reset_inactivity_timeout :: "('sm, 't) Application \<Rightarrow> ('sm, 't) Application" where
  "reset_inactivity_timeout a = g_application_release (g_application_hold a)"

definition hold_with_token :: "'t \<Rightarrow> ('sm, 't) Application \<Rightarrow> ('sm, 't) Application" where
  "hold_with_token token a =
     (if token \<notin> hold_tokens a
      then (g_application_hold a)\<lparr>hold_tokens := insert token (hold_tokens a)\<rparr>
      else a)"

definition release_with_token :: "'t \<Rightarrow> ('sm, 't) Application \<Rightarrow> ('sm, 't) Application" where
  "release_with_token token a =
     (if token \<in> hold_tokens a
      then g_application_release (a\<lparr>hold_tokens := hold_tokens a - {token}\<rparr>)
      else a)"

datatype 't token_call = Assert 't | Retract 't

fun token_call_step :: "('sm, 't) Application \<Rightarrow> 't token_call \<Rightarrow> ('sm, 't) Application" where
  "token_call_step a (Assert token) = hold_with_token token a"
| "token_call_step a (Retract token) = release_with_token token a"

definition run_token_calls ::
  "'t token_call list \<Rightarrow> ('sm, 't) Application \<Rightarrow> ('sm, 't) Application" where
  "run_token_calls cs a = foldl token_call_step a cs"

definition generate_login_token ::
  "(real \<Rightarrow> real) \<Rightarrow> real \<Rightarrow> string \<Rightarrow> UserDetail \<Rightarrow> ('sm, 't) Application
     \<Rightarrow> LoginToken \<times> ('sm, 't) Application" where
  "generate_login_token fl now hex user_detail a =
     (let (login_token, s) = generate_for_user fl now hex (login_token_manager a) user_detail
      in (login_token, a\<lparr>login_token_manager := s\<rparr>))"

definition check_login_token ::
  "real \<Rightarrow> string \<Rightarrow> ('sm, 't) Application \<Rightarrow> LoginToken option \<times> ('sm, 't) Application" where
  "check_login_token now token_key a =
     (let (login_token, s) = pop_login_token now (login_token_manager a) token_key
      in (login_token, a\<lparr>login_token_manager := s\<rparr>))"

text \<open>
  The reconciliation tick of the public interface. It reaches into the application for the
  process-level hold, so it is defined on the application that owns the interface; \<open>self\<close>
  is the token the interface passes for itself.
\<close>

definition auto_stop_timeout_cb ::
  "'sm ServiceManager \<Rightarrow> 't \<Rightarrow> nat \<Rightarrow> main_context \<times> ('sm, 't) Application
     \<Rightarrow> (main_context \<times> ('sm, 't) Application) \<times> bool" where
  "auto_stop_timeout_cb M self sid ga =
     (let (g, a) = ga;
          p = public_interface a;
          p1 = p\<lparr>service_manager := sm_cleanup M (service_manager p)\<rparr>;
          (g2, p2) = (if clients_count p1 = 0 \<and> sm_is_running M (service_manager p1)
                      then begin_stop_kolibri_timeout sid (g, p1)
                      else cancel_stop_kolibri_timeout (g, p1));
          a2 = a\<lparr>public_interface := p2\<rparr>;
          a3 = (if clients_count p2 > 0 \<or> sm_is_running M (service_manager p2)
                then hold_with_token self a2
                else release_with_token self a2)
      in ((g2, a3), SOURCE_CONTINUE))"

text \<open>The main loop running the stop-grace timer's callback for the source \<open>sid\<close>.\<close>

definition fire_stop_kolibri_timeout ::
  "'sm ServiceManager \<Rightarrow> nat \<Rightarrow> main_context \<times> ('sm, 't) Application
     \<Rightarrow> main_context \<times> ('sm, 't) Application" where
  "fire_stop_kolibri_timeout M sid ga =
     (let (g, a) = ga;
          (p, result) = stop_kolibri_timeout_cb M (public_interface a)
      in (after_dispatch sid result g, a\<lparr>public_interface := p\<rparr>))"


section \<open>PrivateDBusInterface\<close>

text \<open>
  The reply of \<^verbatim>\<open>CheckLoginToken\<close> before \<^verbatim>\<open>dict_to_vardict\<close> wraps it: the fields of the
  token's user in declaration order, or the empty dictionary.
\<close>

datatype py_value = PyInt int | PyStr string | PyBool bool

definition asdict :: "UserDetail \<Rightarrow> (string \<times> py_value) list" where
  "asdict u =
     [(''user_id'', PyInt (user_id u)),
      (''user_name'', PyStr (user_name u)),
      (''full_name'', PyStr (full_name u)),
      (''is_admin'', PyBool (is_admin u))]"

definition on_check_login_token ::
  "real \<Rightarrow> string \<Rightarrow> ('sm, 't) Application
     \<Rightarrow> (string \<times> py_value) list \<times> ('sm, 't) Application" where
  "on_check_login_token now token_key a =
     (let a1 = reset_inactivity_timeout a;
          (login_token, a2) = check_login_token now token_key a1;
          result_dict = (case login_token of Some t \<Rightarrow> asdict (user t) | None \<Rightarrow> [])
      in (result_dict, a2))"


section \<open>Command-line options\<close>

text \<open>
  The options dictionary that \<^verbatim>\<open>do_handle_local_options\<close> receives: \<^verbatim>\<open>lookup_value\<close>
  gives \<^verbatim>\<open>None\<close> for an option that was not passed. \<^verbatim>\<open>--session\<close> and \<^verbatim>\<open>--system\<close> are
  flags without an argument, stored as booleans; \<^verbatim>\<open>--stop-timeout\<close> carries a 32-bit
  integer. A \<^verbatim>\<open>GLib.Variant\<close> holding an integer is false in a condition when the integer
  is 0.
\<close>

record local_options =
  opt_session :: "bool option"
  opt_system :: "bool option"
  opt_stop_timeout :: "int option"

definition do_handle_local_options ::
  "local_options \<Rightarrow> ('sm, 't) Application \<Rightarrow> int \<times> ('sm, 't) Application" where
  "do_handle_local_options options a =
     (let a1 = (case opt_system options of
                  Some b \<Rightarrow> a\<lparr>use_system_bus := Some b\<rparr>
                | None \<Rightarrow> a\<lparr>use_system_bus := Some False\<rparr>);
          a2 = (case opt_session options of
                  Some b \<Rightarrow> a1\<lparr>use_session_bus := Some b\<rparr>
                | None \<Rightarrow>
                    if use_system_bus a1 = Some True then a1\<lparr>use_session_bus := Some False\<rparr>
                    else a1\<lparr>use_session_bus := Some True\<rparr>);
          a3 = (case opt_stop_timeout options of
                  Some n \<Rightarrow>
                    if n \<noteq> 0
                    then a2\<lparr>public_interface :=
                              (public_interface a2)\<lparr>stop_kolibri_timeout_interval := n\<rparr>\<rparr>
                    else a2
                | None \<Rightarrow> a2)
      in (- 1, a3))"


section \<open>Auxiliary definitions for the proofs and the concrete runs\<close>

text \<open>
  A dictionary as \<^verbatim>\<open>LoginTokenManager\<close> builds it: every token sits under the decimal id
  of its own user, and its key is that id, a colon and a suffix.
\<close>

definition wf_store :: "login_tokens \<Rightarrow> bool" where
  "wf_store s \<longleftrightarrow>
     (\<forall>uid t. s uid = Some t \<longrightarrow>
        uid = str_int (user_id (user t)) \<and> (\<exists>hex. key t = generate_token_key uid hex))"

text \<open>
  An operation that leaves the token with key \<open>k\<close> of the user id \<open>uid\<close> in place and reads
  the monotonic clock no later than \<open>t\<close>: a generation for another user id, or a redemption
  with another key.
\<close>

fun leaves_token :: "int \<Rightarrow> string \<Rightarrow> real \<Rightarrow> token_op \<Rightarrow> bool" where
  "leaves_token uid k t (GenerateForUser now hex u) = (user_id u \<noteq> uid \<and> now \<le> t)"
| "leaves_token uid k t (PopToken now k') = (k' \<noteq> k \<and> now \<le> t)"

text \<open>Reading a decimal numeral back, used to show that \<open>str_int\<close> is injective.\<close>

definition digit_val :: "char \<Rightarrow> nat" where
  "digit_val c = of_char c - 48"

definition nat_of_digits :: "string \<Rightarrow> nat" where
  "nat_of_digits cs = foldl (\<lambda>acc c. 10 * acc + digit_val c) 0 cs"

text \<open>
  IEEE 754 binary64 rounding (to nearest, ties to even) of a real number between 32 and
  64: the floats in that range are the multiples of \<open>1 / 2 ^ 47\<close>. It is the rounding
  of \<^verbatim>\<open>time.monotonic() + 60\<close> for a reading between -28 and 4 seconds, and stands
  for \<open>fl\<close> in the concrete runs, whose generations all read the clock there.
\<close>

definition round_half_even :: "real \<Rightarrow> int" where
  "round_half_even r =
     (if r - of_int \<lfloor>r\<rfloor> = 1 / 2 \<and> even \<lfloor>r\<rfloor> then \<lfloor>r\<rfloor> else round r)"

definition binary64_round_32_64 :: "real \<Rightarrow> real" where
  "binary64_round_32_64 x = of_int (round_half_even (x * 2 ^ 47)) / 2 ^ 47"

definition example_user :: UserDetail where
  "example_user =
     \<lparr>user_id = 1000, user_name = ''learner'', full_name = ''A Learner'', is_admin = False\<rparr>"

text \<open>
  A service manager that counts the calls it receives, to run the controller on concrete
  inputs: \<^verbatim>\<open>stop_kolibri()\<close> stops the service, \<^verbatim>\<open>cleanup()\<close> only counts.
\<close>

record counting_state =
  running :: bool
  cleanup_calls :: nat
  stop_calls :: nat

definition counting_manager :: "counting_state ServiceManager" where
  "counting_manager =
     \<lparr>sm_cleanup = (\<lambda>s. s\<lparr>cleanup_calls := cleanup_calls s + 1\<rparr>),
      sm_is_running = running,
      sm_stop_kolibri = (\<lambda>s. s\<lparr>running := False, stop_calls := stop_calls s + 1\<rparr>)\<rparr>"

definition fresh_manager :: counting_state where
  "fresh_manager = \<lparr>running = True, cleanup_calls = 0, stop_calls = 0\<rparr>"


section \<open>Decimal numerals and token keys\<close>

declare str_nat.simps [simp del]

lemma digit_char_cases:
  assumes "d < (10::nat)"
  shows "d = 0 \<or> d = 1 \<or> d = 2 \<or> d = 3 \<or> d = 4 \<or> d = 5 \<or> d = 6 \<or> d = 7 \<or> d = 8 \<or> d = 9"
  using assms by arith

lemma digit_char_digit: "d < 10 \<Longrightarrow> digit_char d \<in> set ''0123456789''"
  using digit_char_cases[of d] by (auto simp: digit_char_def)

lemma digit_val_digit_char: "d < 10 \<Longrightarrow> digit_val (digit_char d) = d"
  using digit_char_cases[of d] by (auto simp: digit_char_def digit_val_def)

lemma str_nat_digits: "c \<in> set (str_nat n) \<Longrightarrow> c \<in> set ''0123456789''"
proof (induction n arbitrary: c rule: str_nat.induct)
  case (1 n)
  show ?case
  proof (cases "n < 10")
    case True
    with "1.prems" have "c = digit_char n" by (simp add: str_nat.simps[of n])
    with True show ?thesis using digit_char_digit by blast
  next
    case False
    with "1.prems" have "c \<in> set (str_nat (n div 10)) \<or> c = digit_char (n mod 10)"
      by (auto simp: str_nat.simps[of n])
    then show ?thesis
    proof
      assume "c \<in> set (str_nat (n div 10))"
      with "1.IH"[OF False] show ?thesis .
    next
      assume "c = digit_char (n mod 10)"
      moreover have "n mod 10 < 10" by simp
      ultimately show ?thesis using digit_char_digit by blast
    qed
  qed
qed

lemma nat_of_digits_snoc: "nat_of_digits (cs @ [c]) = 10 * nat_of_digits cs + digit_val c"
  by (simp add: nat_of_digits_def)

lemma nat_of_digits_str_nat: "nat_of_digits (str_nat n) = n"
proof (induction n rule: str_nat.induct)
  case (1 n)
  show ?case
  proof (cases "n < 10")
    case True
    then show ?thesis
      by (simp add: str_nat.simps[of n] nat_of_digits_def digit_val_digit_char)
  next
    case False
    have "nat_of_digits (str_nat n) = 10 * nat_of_digits (str_nat (n div 10)) + digit_val (digit_char (n mod 10))"
      using False by (simp add: str_nat.simps[of n] nat_of_digits_snoc)
    also have "\<dots> = 10 * (n div 10) + n mod 10"
      using "1.IH"[OF False] by (simp add: digit_val_digit_char)
    also have "\<dots> = n" by simp
    finally show ?thesis .
  qed
qed

lemma str_nat_inj: "str_nat m = str_nat n \<Longrightarrow> m = n"
  by (metis nat_of_digits_str_nat)

lemma str_nat_no_minus: "CHR ''-'' \<notin> set (str_nat n)"
  using str_nat_digits[of "CHR ''-''" n] by auto

lemma str_nat_not_minus_Cons: "str_nat n \<noteq> CHR ''-'' # cs"
  using str_nat_no_minus[of n] by (metis list.set_intros(1))

lemma str_int_inj: "str_int i = str_int j \<Longrightarrow> i = j"
proof -
  assume eq: "str_int i = str_int j"
  consider "i < 0" "j < 0" | "i < 0" "\<not> j < 0" | "\<not> i < 0" "j < 0" | "\<not> i < 0" "\<not> j < 0"
    by blast
  then show ?thesis
  proof cases
    case 1
    with eq have "str_nat (nat (- i)) = str_nat (nat (- j))" by (simp add: str_int_def)
    then have "nat (- i) = nat (- j)" by (rule str_nat_inj)
    with 1 show ?thesis by simp
  next
    case 2
    with eq show ?thesis using str_nat_not_minus_Cons[of "nat j" "str_nat (nat (- i))"]
      by (simp add: str_int_def)
  next
    case 3
    with eq show ?thesis using str_nat_not_minus_Cons[of "nat i" "str_nat (nat (- j))"]
      by (simp add: str_int_def)
  next
    case 4
    with eq have "str_nat (nat i) = str_nat (nat j)" by (simp add: str_int_def)
    then have "nat i = nat j" by (rule str_nat_inj)
    with 4 show ?thesis by simp
  qed
qed

lemma str_int_no_colon: "CHR '':'' \<notin> set (str_int i)"
  using str_nat_digits[of "CHR '':''"] by (auto simp: str_int_def)

lemma str_partition_before:
  assumes "sep \<notin> set a"
  shows "fst (str_partition sep (a @ sep # b)) = a"
proof -
  have "takeWhile (\<lambda>c. c \<noteq> sep) (a @ sep # b) = a @ takeWhile (\<lambda>c. c \<noteq> sep) (sep # b)"
    using assms by (intro takeWhile_append2) auto
  then show ?thesis by (simp add: str_partition_def)
qed

lemma str_partition_no_sep: "sep \<notin> set s \<Longrightarrow> str_partition sep s = (s, [], [])"
  by (simp add: str_partition_def)

lemma partition_generated_key:
  "fst (str_partition CHR '':'' (generate_token_key (str_int i) hex)) = str_int i"
  using str_partition_before[OF str_int_no_colon, of i hex]
  by (simp add: generate_token_key_def)

lemma generated_key_has_colon: "CHR '':'' \<in> set (generate_token_key uid hex)"
  by (simp add: generate_token_key_def)

lemma generated_key_inj: "generate_token_key uid h = generate_token_key uid h' \<Longrightarrow> h = h'"
  by (simp add: generate_token_key_def)

lemma str_int_1000: "str_int 1000 = ''1000''"
  by (simp add: str_int_def str_nat.simps digit_char_def)


section \<open>Rounding to the floats between 32 and 64\<close>

lemma round_half_even_tie:
  "r - of_int \<lfloor>r\<rfloor> = 1 / 2 \<and> even \<lfloor>r\<rfloor> \<Longrightarrow> round_half_even r = \<lfloor>r\<rfloor>"
  unfolding round_half_even_def by (rule if_P)

lemma round_half_even_no_tie:
  "\<not> (r - of_int \<lfloor>r\<rfloor> = 1 / 2 \<and> even \<lfloor>r\<rfloor>) \<Longrightarrow> round_half_even r = round r"
  unfolding round_half_even_def by (rule if_not_P)

lemma round_half_even_le_round: "round_half_even r \<le> round r"
proof (cases "r - of_int \<lfloor>r\<rfloor> = 1 / 2 \<and> even \<lfloor>r\<rfloor>")
  case True
  have "\<lfloor>r\<rfloor> \<le> \<lfloor>r + 1 / 2\<rfloor>" by (rule floor_mono) simp
  then show ?thesis unfolding round_half_even_tie[OF True] round_def .
next
  case False
  show ?thesis unfolding round_half_even_no_tie[OF False] by simp
qed

lemma round_half_even_mono:
  assumes "r \<le> s"
  shows "round_half_even r \<le> round_half_even s"
proof (cases "s - of_int \<lfloor>s\<rfloor> = 1 / 2 \<and> even \<lfloor>s\<rfloor>")
  case tie: True
  show ?thesis
  proof (cases "r - of_int \<lfloor>r\<rfloor> = 1 / 2 \<and> even \<lfloor>r\<rfloor>")
    case True
    show ?thesis unfolding round_half_even_tie[OF True] round_half_even_tie[OF tie]
      using assms by (rule floor_mono)
  next
    case False
    with tie have "r \<noteq> s" by blast
    with assms have "r < s" by simp
    moreover from tie have "s = of_int \<lfloor>s\<rfloor> + 1 / 2" by linarith
    ultimately have "r + 1 / 2 < of_int (\<lfloor>s\<rfloor> + 1)" by simp
    then have "\<lfloor>r + 1 / 2\<rfloor> < \<lfloor>s\<rfloor> + 1" by (simp only: floor_less_iff)
    then have "round r \<le> \<lfloor>s\<rfloor>" unfolding round_def by linarith
    then show ?thesis unfolding round_half_even_no_tie[OF False] round_half_even_tie[OF tie] .
  qed
next
  case False
  have "round_half_even r \<le> round r" by (rule round_half_even_le_round)
  also have "round r \<le> round s" using assms by (rule round_mono)
  finally show ?thesis unfolding round_half_even_no_tie[OF False] .
qed

lemma binary64_round_32_64_mono: "mono binary64_round_32_64"
proof (rule monoI)
  fix x y :: real assume "x \<le> y"
  then have "x * 2 ^ 47 \<le> y * 2 ^ 47" by simp
  then have "round_half_even (x * 2 ^ 47) \<le> round_half_even (y * 2 ^ 47)"
    by (rule round_half_even_mono)
  then show "binary64_round_32_64 x \<le> binary64_round_32_64 y"
    by (simp add: binary64_round_32_64_def divide_right_mono)
qed

lemma round_half_even_of_int: "round_half_even (of_int n) = n"
  by (simp add: round_half_even_def)

lemma binary64_round_32_64_of_int: "binary64_round_32_64 (of_int n) = of_int n"
proof -
  have "of_int n * 2 ^ 47 = (of_int (n * 2 ^ 47) :: real)" by simp
  then have "round_half_even (of_int n * 2 ^ 47) = n * 2 ^ 47"
    using round_half_even_of_int[of "n * 2 ^ 47"] by simp
  then show ?thesis by (simp add: binary64_round_32_64_def)
qed

lemma binary64_round_60: "binary64_round_32_64 60 = 60"
  using binary64_round_32_64_of_int[of 60] by simp

lemma binary64_round_61: "binary64_round_32_64 61 = 61"
  using binary64_round_32_64_of_int[of 61] by simp

lemma binary64_round_tenth:
  "binary64_round_32_64 (3602879701896397 / 2 ^ 55 + 60) = 8458323050155213 / 2 ^ 47"
proof -
  have "(3602879701896397 / 2 ^ 55 + 60) * 2 ^ 47 = (2165330700839734477 / 256 :: real)"
    by simp
  moreover have "\<lfloor>2165330700839734477 / 256 :: real\<rfloor> = 8458323050155212"
    by simp
  moreover have "round (2165330700839734477 / 256 :: real) = 8458323050155213"
    by (simp add: round_def)
  ultimately have "round_half_even ((3602879701896397 / 2 ^ 55 + 60) * 2 ^ 47) = 8458323050155213"
    by (simp add: round_half_even_def)
  then show ?thesis by (simp add: binary64_round_32_64_def)
qed


section \<open>Lemmas about the login-token store\<close>

lemma revoke_Some_iff:
  "revoke_expired_tokens now s uid = Some t \<longleftrightarrow> s uid = Some t \<and> \<not> is_expired now t"
  by (auto simp: revoke_expired_tokens_def split: option.splits)

lemma revoke_None_iff:
  "revoke_expired_tokens now s uid = None \<longleftrightarrow> (\<forall>t. s uid = Some t \<longrightarrow> is_expired now t)"
  by (auto simp: revoke_expired_tokens_def split: option.splits)

lemma generate_for_user_eq:
  "generate_for_user fl now hex s u =
     (\<lparr>user = u, key = generate_token_key (str_int (user_id u)) hex,
       expires = fl (now + TOKEN_EXPIRE_TIME)\<rparr>,
      (revoke_expired_tokens now s)
        (str_int (user_id u) \<mapsto>
           \<lparr>user = u, key = generate_token_key (str_int (user_id u)) hex,
            expires = fl (now + TOKEN_EXPIRE_TIME)\<rparr>))"
  by (simp add: generate_for_user_def add_login_token_def with_expire_time_def Let_def)

lemma pop_login_token_hit:
  "revoke_expired_tokens now s (fst (str_partition CHR '':'' k)) = Some t \<Longrightarrow> key t = k \<Longrightarrow>
   pop_login_token now s k =
     (Some t, (revoke_expired_tokens now s)(fst (str_partition CHR '':'' k) := None))"
  by (simp add: pop_login_token_def pop_login_token_inner_def Let_def)

lemma pop_login_token_miss:
  "(\<And>t. revoke_expired_tokens now s (fst (str_partition CHR '':'' k)) = Some t \<Longrightarrow> key t \<noteq> k) \<Longrightarrow>
   pop_login_token now s k = (None, revoke_expired_tokens now s)"
  by (auto simp: pop_login_token_def pop_login_token_inner_def Let_def split: option.splits)

lemma pop_login_token_store:
  "snd (pop_login_token now s k) uid = Some t \<Longrightarrow> s uid = Some t"
  by (auto simp: pop_login_token_def pop_login_token_inner_def Let_def revoke_Some_iff
      split: option.splits if_splits)

lemma pop_login_token_store_None:
  "s uid = None \<Longrightarrow> snd (pop_login_token now s k) uid = None"
  using pop_login_token_store[of now s k uid] by (cases "snd (pop_login_token now s k) uid") auto

lemma wf_store_empty: "wf_store Map.empty"
  by (simp add: wf_store_def)

lemma wf_store_step: "wf_store s \<Longrightarrow> wf_store (token_step fl s op)"
proof (cases op)
  case (GenerateForUser now hex u)
  assume "wf_store s"
  then show ?thesis using GenerateForUser
    by (auto simp: wf_store_def generate_for_user_eq revoke_Some_iff)
next
  case (PopToken now k)
  assume "wf_store s"
  then show ?thesis using PopToken pop_login_token_store[of now s k]
    unfolding wf_store_def by (metis token_step.simps(2))
qed

lemma wf_store_run: "wf_store s \<Longrightarrow> wf_store (run_token_ops fl ops s)"
  unfolding run_token_ops_def
  by (induction ops arbitrary: s) (simp_all add: wf_store_step)

lemma wf_store_reachable: "wf_store (run_token_ops fl ops Map.empty)"
  by (rule wf_store_run[OF wf_store_empty])

lemma slot_not_key_step:
  assumes inv: "\<And>t. s (str_int uid) = Some t \<Longrightarrow> key t \<noteq> generate_token_key (str_int uid) h"
    and ok: "no_reissue uid h op"
    and st: "token_step fl s op (str_int uid) = Some t"
  shows "key t \<noteq> generate_token_key (str_int uid) h"
proof (cases op)
  case (GenerateForUser now hex u)
  show ?thesis
  proof (cases "user_id u = uid")
    case True
    with ok GenerateForUser have "hex \<noteq> h" by simp
    moreover from st GenerateForUser True
    have "key t = generate_token_key (str_int uid) hex"
      by (auto simp: generate_for_user_eq)
    ultimately show ?thesis using generated_key_inj by metis
  next
    case False
    then have "str_int (user_id u) \<noteq> str_int uid" using str_int_inj by blast
    with st GenerateForUser have "s (str_int uid) = Some t"
      by (simp add: generate_for_user_eq revoke_Some_iff)
    then show ?thesis by (rule inv)
  qed
next
  case (PopToken now k)
  with st have "s (str_int uid) = Some t" using pop_login_token_store by simp
  then show ?thesis by (rule inv)
qed

lemma slot_not_key_run:
  assumes "\<And>t. s (str_int uid) = Some t \<Longrightarrow> key t \<noteq> generate_token_key (str_int uid) h"
    and "\<forall>op \<in> set ops. no_reissue uid h op"
    and "run_token_ops fl ops s (str_int uid) = Some t"
  shows "key t \<noteq> generate_token_key (str_int uid) h"
  using assms unfolding run_token_ops_def
proof (induction ops arbitrary: s t)
  case Nil
  then show ?case by simp
next
  case (Cons op ops)
  show ?case
  proof (rule Cons.IH[of "token_step fl s op" t])
    fix t' assume "token_step fl s op (str_int uid) = Some t'"
    with Cons.prems(1,2) show "key t' \<noteq> generate_token_key (str_int uid) h"
      using slot_not_key_step[where s = s and uid = uid and h = h and op = op and fl = fl and t = t']
      by simp
  next
    show "\<forall>op \<in> set ops. no_reissue uid h op" using Cons.prems(2) by simp
  next
    show "foldl (token_step fl) (token_step fl s op) ops (str_int uid) = Some t"
      using Cons.prems(3) by simp
  qed
qed

lemma slot_empty_step:
  assumes "s (str_int uid) = None" and "not_generate_for uid op"
  shows "token_step fl s op (str_int uid) = None"
proof (cases op)
  case (GenerateForUser now hex u)
  with assms(2) have "str_int (user_id u) \<noteq> str_int uid" using str_int_inj by auto
  with assms(1) GenerateForUser show ?thesis
    by (simp add: generate_for_user_eq revoke_None_iff)
next
  case (PopToken now k)
  with assms(1) show ?thesis by (simp add: pop_login_token_store_None)
qed

lemma slot_empty_run:
  "s (str_int uid) = None \<Longrightarrow> \<forall>op \<in> set ops. not_generate_for uid op \<Longrightarrow>
   run_token_ops fl ops s (str_int uid) = None"
  unfolding run_token_ops_def
  by (induction ops arbitrary: s) (simp_all add: slot_empty_step)

lemma leaves_token_not_generate: "leaves_token uid k t op \<Longrightarrow> not_generate_for uid op"
  by (cases op) simp_all

lemma slot_kept_step:
  assumes slot: "s (str_int uid) = Some tok"
    and live: "\<not> is_expired t tok"
    and ok: "leaves_token uid (key tok) t op"
  shows "token_step fl s op (str_int uid) = Some tok"
proof (cases op)
  case (GenerateForUser now hex u)
  with ok have ne: "str_int (user_id u) \<noteq> str_int uid" and le: "now \<le> t"
    using str_int_inj by auto
  from live le have "\<not> is_expired now tok" by (simp add: is_expired_def)
  with slot ne GenerateForUser show ?thesis
    by (simp add: generate_for_user_eq revoke_Some_iff)
next
  case (PopToken now k')
  with ok have ne: "k' \<noteq> key tok" and le: "now \<le> t" by auto
  from live le have "\<not> is_expired now tok" by (simp add: is_expired_def)
  with slot have rv: "revoke_expired_tokens now s (str_int uid) = Some tok"
    by (simp add: revoke_Some_iff)
  show ?thesis
  proof (cases "fst (str_partition CHR '':'' k') = str_int uid")
    case True
    with rv ne have "pop_login_token now s k' = (None, revoke_expired_tokens now s)"
      by (intro pop_login_token_miss) auto
    with rv PopToken show ?thesis by simp
  next
    case False
    with rv PopToken show ?thesis
      by (auto simp: pop_login_token_def pop_login_token_inner_def Let_def split: option.splits)
  qed
qed

lemma slot_kept_run:
  "s (str_int uid) = Some tok \<Longrightarrow> \<not> is_expired t tok \<Longrightarrow>
   \<forall>op \<in> set ops. leaves_token uid (key tok) t op \<Longrightarrow>
   run_token_ops fl ops s (str_int uid) = Some tok"
  unfolding run_token_ops_def
  by (induction ops arbitrary: s) (simp_all add: slot_kept_step)

lemma slot_sub_step:
  assumes "s (str_int uid) = None \<or> s (str_int uid) = Some tok"
    and "not_generate_for uid op"
  shows "token_step fl s op (str_int uid) = None \<or> token_step fl s op (str_int uid) = Some tok"
proof (cases "token_step fl s op (str_int uid)")
  case None
  then show ?thesis by simp
next
  case (Some t')
  have "s (str_int uid) = Some t'"
  proof (cases op)
    case (GenerateForUser now hex u)
    with assms(2) have "str_int (user_id u) \<noteq> str_int uid" using str_int_inj by auto
    with Some GenerateForUser show ?thesis by (simp add: generate_for_user_eq revoke_Some_iff)
  next
    case (PopToken now k)
    with Some show ?thesis using pop_login_token_store by simp
  qed
  with assms(1) Some show ?thesis by simp
qed

lemma slot_sub_run:
  "s (str_int uid) = None \<or> s (str_int uid) = Some tok \<Longrightarrow>
   \<forall>op \<in> set ops. not_generate_for uid op \<Longrightarrow>
   run_token_ops fl ops s (str_int uid) = None \<or> run_token_ops fl ops s (str_int uid) = Some tok"
  unfolding run_token_ops_def
proof (induction ops arbitrary: s)
  case Nil
  then show ?case by simp
next
  case (Cons op ops)
  from Cons.prems
  have "token_step fl s op (str_int uid) = None \<or> token_step fl s op (str_int uid) = Some tok"
    by (intro slot_sub_step) simp_all
  with Cons.IH[of "token_step fl s op"] Cons.prems(2) show ?case by simp
qed

lemma pop_after_generate_run:
  assumes "\<forall>op \<in> set ops. leaves_token (user_id u) (key (fst (generate_for_user fl t0 hex s u))) t op"
  shows "fst (pop_login_token t (run_token_ops fl ops (snd (generate_for_user fl t0 hex s u)))
            (key (fst (generate_for_user fl t0 hex s u)))) =
         (if t \<le> fl (t0 + TOKEN_EXPIRE_TIME) then Some (fst (generate_for_user fl t0 hex s u)) else None)"
proof -
  let ?uid = "str_int (user_id u)"
  let ?tok = "\<lparr>user = u, key = generate_token_key ?uid hex, expires = fl (t0 + TOKEN_EXPIRE_TIME)\<rparr>"
  let ?s1 = "(revoke_expired_tokens t0 s)(?uid \<mapsto> ?tok)"
  have g: "generate_for_user fl t0 hex s u = (?tok, ?s1)" by (rule generate_for_user_eq)
  have pre: "fst (str_partition CHR '':'' (key ?tok)) = ?uid"
    by (simp add: partition_generated_key)
  have ops: "\<forall>op \<in> set ops. leaves_token (user_id u) (key ?tok) t op"
    using assms unfolding g by simp
  have slot: "?s1 ?uid = Some ?tok" by simp
  show ?thesis
  proof (cases "t \<le> fl (t0 + TOKEN_EXPIRE_TIME)")
    case True
    then have live: "\<not> is_expired t ?tok" by (simp add: is_expired_def)
    have "run_token_ops fl ops ?s1 ?uid = Some ?tok"
      using slot_kept_run[where s = ?s1 and uid = "user_id u" and tok = ?tok and t = t
            and ops = ops and fl = fl] slot live ops by blast
    then have "revoke_expired_tokens t (run_token_ops fl ops ?s1) ?uid = Some ?tok"
      using live by (simp add: revoke_Some_iff)
    then have "fst (pop_login_token t (run_token_ops fl ops ?s1) (key ?tok)) = Some ?tok"
      using pop_login_token_hit[of t "run_token_ops fl ops ?s1" "key ?tok" ?tok] pre by simp
    then show ?thesis using True unfolding g by simp
  next
    case False
    then have dead: "is_expired t ?tok" by (simp add: is_expired_def)
    have "\<forall>op \<in> set ops. not_generate_for (user_id u) op"
      using ops leaves_token_not_generate by blast
    from slot_sub_run[where s = ?s1 and uid = "user_id u" and tok = ?tok and ops = ops
           and fl = fl] slot this
    have "run_token_ops fl ops ?s1 ?uid = None \<or> run_token_ops fl ops ?s1 ?uid = Some ?tok" by simp
    then have "revoke_expired_tokens t (run_token_ops fl ops ?s1) ?uid = None"
      using dead by (auto simp: revoke_None_iff)
    then have "pop_login_token t (run_token_ops fl ops ?s1) (key ?tok) =
                 (None, revoke_expired_tokens t (run_token_ops fl ops ?s1))"
      using pre by (intro pop_login_token_miss) simp
    then show ?thesis using False unfolding g by simp
  qed
qed

lemma pop_after_generate:
  "fst (pop_login_token t (snd (generate_for_user fl t0 hex s u))
          (key (fst (generate_for_user fl t0 hex s u)))) =
     (if t \<le> fl (t0 + TOKEN_EXPIRE_TIME) then Some (fst (generate_for_user fl t0 hex s u)) else None)"
  using pop_after_generate_run[where ops = "[]" and u = u and fl = fl and ?t0.0 = t0
          and hex = hex and s = s and t = t]
  by (simp add: run_token_ops_def)


section \<open>Lemmas about the hold registry\<close>

lemma hold_step_keys:
  assumes "distinct (map fst (hold_clients p))"
  shows "distinct (map fst (hold_clients (hold_step p op))) \<and>
         set (map fst (hold_clients (hold_step p op))) =
           held_spec_step (set (map fst (hold_clients p))) op"
proof (cases op)
  case (Hold w name)
  then show ?thesis using assms
    by (auto simp: hold_for_client_def distinct_update dom_update)
next
  case (Release name)
  show ?thesis
  proof (cases "map_of (hold_clients p) name")
    case None
    then have "name \<notin> fst ` set (hold_clients p)" by (simp add: map_of_eq_None_iff)
    then show ?thesis using Release None assms by (simp add: release_for_client_def)
  next
    case (Some w)
    then show ?thesis using Release assms
      by (auto simp: release_for_client_def distinct_removeAll delete_keys)
  qed
next
  case (Vanished name)
  show ?thesis
  proof (cases "map_of (hold_clients p) name")
    case None
    then have "name \<notin> fst ` set (hold_clients p)" by (simp add: map_of_eq_None_iff)
    then show ?thesis using Vanished None assms
      by (simp add: release_for_client_def on_hold_client_vanished_def)
  next
    case (Some w)
    then show ?thesis using Vanished assms
      by (auto simp: release_for_client_def on_hold_client_vanished_def distinct_removeAll delete_keys)
  qed
qed

lemma run_hold_ops_keys:
  "distinct (map fst (hold_clients p)) \<Longrightarrow>
   distinct (map fst (hold_clients (foldl hold_step p ops))) \<and>
   set (map fst (hold_clients (foldl hold_step p ops))) =
     foldl held_spec_step (set (map fst (hold_clients p))) ops"
proof (induction ops arbitrary: p)
  case Nil
  then show ?case by simp
next
  case (Cons op ops)
  from hold_step_keys[OF Cons.prems, of op]
  have d: "distinct (map fst (hold_clients (hold_step p op)))"
    and s: "set (map fst (hold_clients (hold_step p op))) =
            held_spec_step (set (map fst (hold_clients p))) op" by simp_all
  from Cons.IH[OF d] s show ?case by simp
qed

lemma hold_twice:
  "hold_for_client w2 c (hold_for_client w1 c q) = hold_for_client w1 c q"
  by (simp add: hold_for_client_def dom_update)

lemma release_not_held:
  "c \<notin> set (map fst (hold_clients q)) \<Longrightarrow> release_for_client c q = q"
  by (simp add: release_for_client_def map_of_eq_None_iff[THEN iffD2])


section \<open>Lemmas about the stop-grace timer\<close>

lemma begin_stop_kolibri_timeout_eq:
  "begin_stop_kolibri_timeout sid (g, p) =
     (if truthy (stop_kolibri_timeout_source p) then (g, p)
      else (g(sid \<mapsto> (stop_kolibri_timeout_interval p, Stop_kolibri_timeout_cb)),
            p\<lparr>stop_kolibri_timeout_source := Some sid\<rparr>))"
  by (simp add: begin_stop_kolibri_timeout_def timeout_add_seconds_def)

lemma cancel_stop_kolibri_timeout_eq:
  "cancel_stop_kolibri_timeout (g, p) =
     (if truthy (stop_kolibri_timeout_source p)
      then (g(the (stop_kolibri_timeout_source p) := None), p\<lparr>stop_kolibri_timeout_source := None\<rparr>)
      else (g, p))"
  by (simp add: cancel_stop_kolibri_timeout_def source_remove_def)


section \<open>Lemmas about the process hold counter\<close>

lemma hold_tokens_finite_step:
  "finite (hold_tokens a) \<Longrightarrow> finite (hold_tokens (token_call_step a c))"
  by (cases c)
     (simp_all add: hold_with_token_def release_with_token_def g_application_hold_def
        g_application_release_def)

lemma use_count_step:
  assumes fin: "finite (hold_tokens a)" and eq: "use_count a = int (card (hold_tokens a))"
  shows "use_count (token_call_step a c) = int (card (hold_tokens (token_call_step a c)))"
proof (cases c)
  case (Assert t)
  then show ?thesis using fin eq
    by (simp add: hold_with_token_def g_application_hold_def)
next
  case (Retract t)
  show ?thesis
  proof (cases "t \<in> hold_tokens a")
    case True
    then have "card (hold_tokens a) > 0" using fin by (auto simp: card_gt_0_iff)
    then show ?thesis using Retract True fin eq
      by (simp add: release_with_token_def g_application_release_def card_Diff_singleton
          of_nat_diff)
  next
    case False
    then show ?thesis using Retract eq by (simp add: release_with_token_def)
  qed
qed

lemma run_token_calls_inv:
  "finite (hold_tokens a) \<Longrightarrow> use_count a = int (card (hold_tokens a)) \<Longrightarrow>
   finite (hold_tokens (run_token_calls cs a)) \<and>
   use_count (run_token_calls cs a) = int (card (hold_tokens (run_token_calls cs a)))"
  unfolding run_token_calls_def
proof (induction cs arbitrary: a)
  case Nil
  then show ?case by simp
next
  case (Cons c cs)
  show ?case using Cons.IH[of "token_call_step a c"] Cons.prems
    by (simp add: hold_tokens_finite_step use_count_step)
qed


section \<open>The claims\<close>

text \<open>
  C1. One reconciliation tick, from any state of the registry, the timer handle, the
  service and the hold-token set. The service manager has had \<^verbatim>\<open>cleanup()\<close> applied; with
  \<open>idle\<close> standing for "no client holds and the service, after the cleanup, is running",
  the stop-grace timer is armed afterwards exactly when \<open>idle\<close> holds: a timer that was
  armed is kept as it is, a missing one is added to the main loop under the new id, and
  when \<open>idle\<close> fails an armed timer is removed from the main loop and its handle cleared.
  The interface's own hold token is in the application's set afterwards exactly when a
  client holds or the service is running, no other token is touched, and the process hold
  count moves with that one token. The new source id is not 0, as GLib promises.
\<close>

theorem reconciliation_tick:
  assumes "sid \<noteq> 0"
  shows
  "let p = public_interface a;
       h = stop_kolibri_timeout_source p;
       sm' = sm_cleanup M (service_manager p);
       is_running = sm_is_running M sm';
       idle = (clients_count p = 0 \<and> is_running);
       ((g', a'), r) = auto_stop_timeout_cb M self sid (g, a);
       p' = public_interface a'
   in r = SOURCE_CONTINUE \<and>
      service_manager p' = sm' \<and>
      hold_clients p' = hold_clients p \<and>
      stop_kolibri_timeout_interval p' = stop_kolibri_timeout_interval p \<and>
      truthy (stop_kolibri_timeout_source p') = idle \<and>
      stop_kolibri_timeout_source p' =
        (if idle then (if truthy h then h else Some sid) else (if truthy h then None else h)) \<and>
      g' = (if idle
            then (if truthy h then g
                  else g(sid \<mapsto> (stop_kolibri_timeout_interval p, Stop_kolibri_timeout_cb)))
            else (if truthy h then g(the h := None) else g)) \<and>
      (self \<in> hold_tokens a') = (clients_count p > 0 \<or> is_running) \<and>
      hold_tokens a' - {self} = hold_tokens a - {self} \<and>
      use_count a' = use_count a + (if self \<in> hold_tokens a' then 1 else 0)
                                 - (if self \<in> hold_tokens a then 1 else 0)"
  using assms
  by (auto simp: auto_stop_timeout_cb_def Let_def begin_stop_kolibri_timeout_eq
      cancel_stop_kolibri_timeout_eq clients_count_def hold_with_token_def release_with_token_def
      g_application_hold_def g_application_release_def truthy_def split: option.splits)

theorem reconciliation_tick_witness:
  "(5::nat) \<noteq> 0 \<and>
   (let ((g', a'), r) = auto_stop_timeout_cb counting_manager () 5
                          (Map.empty, Application_init fresh_manager)
    in stop_kolibri_timeout_source (public_interface a') = Some 5 \<and>
       g' 5 = Some (60, Stop_kolibri_timeout_cb) \<and>
       hold_tokens a' = {()} \<and> use_count a' = 1) \<and>
   (let ((g', a'), r) = auto_stop_timeout_cb counting_manager () 6
                          ([5 \<mapsto> (60, Stop_kolibri_timeout_cb)],
                           (Application_init (fresh_manager\<lparr>running := False\<rparr>))
                             \<lparr>public_interface :=
                                (PublicDBusInterface_init (fresh_manager\<lparr>running := False\<rparr>))
                                  \<lparr>stop_kolibri_timeout_source := Some 5\<rparr>,
                              hold_tokens := {()}, use_count := 1\<rparr>)
    in stop_kolibri_timeout_source (public_interface a') = None \<and>
       g' 5 = None \<and> hold_tokens a' = {} \<and> use_count a' = 0)"
  using reconciliation_tick[where sid = 5 and M = counting_manager and self = "()"
          and g = Map.empty and a = "Application_init fresh_manager"]
        reconciliation_tick[where sid = 6 and M = counting_manager and self = "()"
          and g = "[5 \<mapsto> (60, Stop_kolibri_timeout_cb)]"
          and a = "(Application_init (fresh_manager\<lparr>running := False\<rparr>))
                             \<lparr>public_interface :=
                                (PublicDBusInterface_init (fresh_manager\<lparr>running := False\<rparr>))
                                  \<lparr>stop_kolibri_timeout_source := Some 5\<rparr>,
                              hold_tokens := {()}, use_count := 1\<rparr>"]
  by (simp add: auto_stop_timeout_cb_def Let_def begin_stop_kolibri_timeout_eq
      cancel_stop_kolibri_timeout_eq clients_count_def hold_with_token_def release_with_token_def
      g_application_hold_def g_application_release_def truthy_def Application_init_def
      PublicDBusInterface_init_def counting_manager_def fresh_manager_def
      DEFAULT_STOP_KOLIBRI_TIMEOUT_SECONDS_def)

text \<open>
  C2. The stop-grace timer firing, from any state. The callback stops the service exactly
  when no client holds at that moment, clears the handle in either case, and returns
  \<^verbatim>\<open>SOURCE_REMOVE\<close>, so that the main loop drops the source and adds none. In the scenario
  of a tick that arms the timer (no client, service running, timer not armed) followed by
  the timer firing with still no client, the service manager ends as the one before the
  tick with \<^verbatim>\<open>cleanup()\<close> and then \<^verbatim>\<open>stop_kolibri()\<close> applied once each.
\<close>

theorem stop_grace_timer_fire:
  "let p = public_interface a;
       (p', r) = stop_kolibri_timeout_cb M p;
       (g', a') = fire_stop_kolibri_timeout M sid (g, a)
   in r = SOURCE_REMOVE \<and>
      stop_kolibri_timeout_source p' = None \<and>
      service_manager p' = (if clients_count p = 0 then sm_stop_kolibri M (service_manager p)
                            else service_manager p) \<and>
      hold_clients p' = hold_clients p \<and>
      public_interface a' = p' \<and>
      g' = g(sid := None) \<and>
      (clients_count p = 0 \<and> sid \<noteq> 0 \<and> \<not> truthy (stop_kolibri_timeout_source p) \<and>
       sm_is_running M (sm_cleanup M (service_manager p)) \<longrightarrow>
       (let (ga1, r1) = auto_stop_timeout_cb M self sid (g, a);
            (g2, a2) = fire_stop_kolibri_timeout M sid ga1
        in stop_kolibri_timeout_source (public_interface (snd ga1)) = Some sid \<and>
           fst ga1 sid = Some (stop_kolibri_timeout_interval p, Stop_kolibri_timeout_cb) \<and>
           service_manager (public_interface a2) =
             sm_stop_kolibri M (sm_cleanup M (service_manager p)) \<and>
           stop_kolibri_timeout_source (public_interface a2) = None \<and>
           g2 = g(sid := None)))"
  by (auto simp: auto_stop_timeout_cb_def Let_def begin_stop_kolibri_timeout_eq
      cancel_stop_kolibri_timeout_eq clients_count_def hold_with_token_def release_with_token_def
      g_application_hold_def g_application_release_def truthy_def fire_stop_kolibri_timeout_def
      stop_kolibri_timeout_cb_def after_dispatch_def SOURCE_REMOVE_def
      split: option.splits)

theorem stop_grace_timer_fire_witness:
  "clients_count (public_interface (Application_init fresh_manager :: (counting_state, unit) Application)) = 0 \<and>
   (5::nat) \<noteq> 0 \<and>
   \<not> truthy (stop_kolibri_timeout_source
               (public_interface (Application_init fresh_manager :: (counting_state, unit) Application))) \<and>
   sm_is_running counting_manager (sm_cleanup counting_manager fresh_manager) \<and>
   (let (ga1, r1) = auto_stop_timeout_cb counting_manager () 5
                      (Map.empty, Application_init fresh_manager);
        (g2, a2) = fire_stop_kolibri_timeout counting_manager 5 ga1
    in stop_calls (service_manager (public_interface a2)) = 1 \<and>
       \<not> running (service_manager (public_interface a2)) \<and>
       stop_kolibri_timeout_source (public_interface a2) = None \<and>
       g2 5 = None)"
  using stop_grace_timer_fire[where sid = 5 and M = counting_manager and self = "()"
          and g = Map.empty and a = "Application_init fresh_manager :: (counting_state, unit) Application"]
  by (simp add: auto_stop_timeout_cb_def Let_def begin_stop_kolibri_timeout_eq
      cancel_stop_kolibri_timeout_eq clients_count_def hold_with_token_def release_with_token_def
      g_application_hold_def g_application_release_def truthy_def Application_init_def
      PublicDBusInterface_init_def counting_manager_def fresh_manager_def
      DEFAULT_STOP_KOLIBRI_TIMEOUT_SECONDS_def fire_stop_kolibri_timeout_def
      stop_kolibri_timeout_cb_def after_dispatch_def SOURCE_REMOVE_def)

text \<open>
  C3. A user's first key dies with the second generation. Take any store, generate a
  token for \<open>u\<close>, let any operations follow, generate for \<open>u\<close> again, and let further
  operations follow that are redemptions of any key, generations for other users, or
  generations for \<open>u\<close> with a new random suffix: redeeming the first key then gives
  nothing and only purges expired tokens. The random suffix of the second generation
  differs from the first one's, as \<^verbatim>\<open>uuid4\<close> values do.
\<close>

theorem second_token_replaces_first:
  assumes "h2 \<noteq> h1"
    and "\<forall>op \<in> set ops2. no_reissue (user_id u) h1 op"
  shows "let (tok1, s1) = generate_for_user fl t1 h1 s0 u;
             (tok2, s2) = generate_for_user fl t2 h2 (run_token_ops fl ops1 s1) u;
             s3 = run_token_ops fl ops2 s2
         in pop_login_token t3 s3 (key tok1) = (None, revoke_expired_tokens t3 s3)"
proof -
  let ?uid = "str_int (user_id u)"
  let ?k1 = "generate_token_key ?uid h1"
  obtain tok1 s1 where g1: "generate_for_user fl t1 h1 s0 u = (tok1, s1)" by fastforce
  obtain tok2 s2 where g2: "generate_for_user fl t2 h2 (run_token_ops fl ops1 s1) u = (tok2, s2)"
    by fastforce
  have k1: "key tok1 = ?k1" using g1 by (auto simp: generate_for_user_eq)
  have s2: "\<And>t. s2 ?uid = Some t \<Longrightarrow> key t \<noteq> ?k1"
    using g2 assms(1) generated_key_inj by (auto simp: generate_for_user_eq)
  have s3: "\<And>t. run_token_ops fl ops2 s2 ?uid = Some t \<Longrightarrow> key t \<noteq> ?k1"
    using slot_not_key_run[where s = s2 and uid = "user_id u" and h = h1 and ops = ops2
            and fl = fl] s2 assms(2) by blast
  have "pop_login_token t3 (run_token_ops fl ops2 s2) ?k1 =
          (None, revoke_expired_tokens t3 (run_token_ops fl ops2 s2))"
  proof (rule pop_login_token_miss)
    fix t assume "revoke_expired_tokens t3 (run_token_ops fl ops2 s2)
                    (fst (str_partition CHR '':'' ?k1)) = Some t"
    then have "run_token_ops fl ops2 s2 ?uid = Some t"
      by (simp add: partition_generated_key revoke_Some_iff)
    then show "key t \<noteq> ?k1" by (rule s3)
  qed
  then show ?thesis using g1 g2 k1 by (simp add: Let_def)
qed

theorem second_token_replaces_first_witness:
  "''9b2e'' \<noteq> ''5f1c'' \<and>
   no_reissue (user_id example_user) ''5f1c''
     (GenerateForUser 3 ''5f1c'' (example_user\<lparr>user_id := 1001\<rparr>)) \<and>
   no_reissue (user_id example_user) ''5f1c'' (PopToken 3 ''1001:0000'') \<and>
   (let (tok1, s1) = generate_for_user binary64_round_32_64 1 ''5f1c'' Map.empty example_user;
        (tok2, s2) = generate_for_user binary64_round_32_64 2 ''9b2e''
                       (run_token_ops binary64_round_32_64 [PopToken 1 ''1001:0000''] s1)
                       example_user;
        s3 = run_token_ops binary64_round_32_64
               [GenerateForUser 3 ''5f1c'' (example_user\<lparr>user_id := 1001\<rparr>),
                PopToken 3 ''1001:0000''] s2
    in key tok1 = ''1000:5f1c'' \<and> fst (pop_login_token 4 s3 (key tok1)) = None)"
  using second_token_replaces_first[where ?h2.0 = "''9b2e''" and ?h1.0 = "''5f1c''"
          and ?ops2.0 = "[GenerateForUser 3 ''5f1c'' (example_user\<lparr>user_id := 1001\<rparr>),
                          PopToken 3 ''1001:0000'']"
          and u = example_user and fl = binary64_round_32_64 and ?t1.0 = 1
          and ?s0.0 = Map.empty and ?t2.0 = 2
          and ?ops1.0 = "[PopToken 1 ''1001:0000'']" and ?t3.0 = 4]
  by (simp add: generate_for_user_eq example_user_def str_int_1000 generate_token_key_def
      split_beta Let_def)

text \<open>
  C4. Single use. In a store built by the manager from the empty one, take a stored token
  that has not expired at the time of the call: redeeming its key returns that token and
  empties the user's slot, and after any further operations that generate no token for
  that user, redeeming the same key again returns nothing.
\<close>

theorem login_token_is_single_use:
  assumes stored: "run_token_ops fl ops0 Map.empty uid = Some tok"
    and live: "\<not> is_expired now tok"
    and others: "\<forall>op \<in> set ops. not_generate_for (user_id (user tok)) op"
  shows "let s = run_token_ops fl ops0 Map.empty;
             (r1, s1) = pop_login_token now s (key tok);
             (r2, s2) = pop_login_token now2 (run_token_ops fl ops s1) (key tok)
         in r1 = Some tok \<and> s1 = (revoke_expired_tokens now s)(uid := None) \<and> s1 uid = None \<and>
            r2 = None"
proof -
  let ?s = "run_token_ops fl ops0 Map.empty"
  let ?s1 = "(revoke_expired_tokens now ?s)(uid := None)"
  from wf_store_reachable[of fl ops0] stored
  have uid: "uid = str_int (user_id (user tok))"
    and "\<exists>hex. key tok = generate_token_key uid hex"
    unfolding wf_store_def by blast+
  then obtain hex where k: "key tok = generate_token_key (str_int (user_id (user tok))) hex"
    by blast
  have pre: "fst (str_partition CHR '':'' (key tok)) = uid"
    using k uid by (simp add: partition_generated_key)
  have "revoke_expired_tokens now ?s uid = Some tok"
    using stored live by (simp add: revoke_Some_iff)
  then have first: "pop_login_token now ?s (key tok) = (Some tok, ?s1)"
    using pop_login_token_hit[of now ?s "key tok" tok] pre by simp
  have "run_token_ops fl ops ?s1 (str_int (user_id (user tok))) = None"
    using slot_empty_run[where s = ?s1 and uid = "user_id (user tok)" and ops = ops
            and fl = fl] others uid by simp
  then have "revoke_expired_tokens now2 (run_token_ops fl ops ?s1) (fst (str_partition CHR '':'' (key tok))) = None"
    using pre uid by (simp add: revoke_None_iff)
  then have "pop_login_token now2 (run_token_ops fl ops ?s1) (key tok) =
               (None, revoke_expired_tokens now2 (run_token_ops fl ops ?s1))"
    by (intro pop_login_token_miss) simp
  with first show ?thesis by (simp add: Let_def)
qed

theorem login_token_is_single_use_witness:
  "run_token_ops binary64_round_32_64 [GenerateForUser 1 ''5f1c'' example_user] Map.empty
     ''1000'' =
     Some \<lparr>user = example_user, key = ''1000:5f1c'', expires = 61\<rparr> \<and>
   \<not> is_expired 30 \<lparr>user = example_user, key = ''1000:5f1c'', expires = 61\<rparr> \<and>
   not_generate_for (user_id (user \<lparr>user = example_user, key = ''1000:5f1c'', expires = 61\<rparr>))
     (PopToken 31 ''1001:0000'') \<and>
   (let s = run_token_ops binary64_round_32_64 [GenerateForUser 1 ''5f1c'' example_user]
              Map.empty;
        (r1, s1) = pop_login_token 30 s
                     (key \<lparr>user = example_user, key = ''1000:5f1c'', expires = 61\<rparr>);
        (r2, s2) = pop_login_token 32
                     (run_token_ops binary64_round_32_64 [PopToken 31 ''1001:0000''] s1)
                     (key \<lparr>user = example_user, key = ''1000:5f1c'', expires = 61\<rparr>)
    in r1 = Some \<lparr>user = example_user, key = ''1000:5f1c'', expires = 61\<rparr> \<and>
       s1 = (revoke_expired_tokens 30 s)(''1000'' := None) \<and> s1 ''1000'' = None \<and>
       r2 = None)"
proof -
  let ?tok = "\<lparr>user = example_user, key = ''1000:5f1c'', expires = 61\<rparr>"
  have h1: "run_token_ops binary64_round_32_64 [GenerateForUser 1 ''5f1c'' example_user]
              Map.empty ''1000'' = Some ?tok"
    by (simp add: run_token_ops_def generate_for_user_eq example_user_def str_int_1000
        generate_token_key_def TOKEN_EXPIRE_TIME_def binary64_round_61)
  have h2: "\<not> is_expired 30 ?tok" by (simp add: is_expired_def)
  have h3: "\<forall>op \<in> set [PopToken 31 ''1001:0000'']. not_generate_for (user_id (user ?tok)) op"
    by simp
  from login_token_is_single_use[OF h1 h2 h3, of 32] h1 h2 show ?thesis by simp
qed

text \<open>
  C5. Exact match. Whatever the store and the key: a token that \<^verbatim>\<open>pop_login_token\<close>
  returns carries exactly the supplied key, was live under the key's prefix, and is the
  only entry removed; when the prefix of the key names a live token with a different key,
  nothing is returned and the store is the purged one; and whenever nothing is returned
  the store is the purged one.
\<close>

theorem pop_needs_exact_key:
  "let live = revoke_expired_tokens now s;
       uid = fst (str_partition CHR '':'' k);
       (r, s') = pop_login_token now s k
   in (\<forall>tok. r = Some tok \<longrightarrow> key tok = k \<and> live uid = Some tok \<and> s' = live(uid := None)) \<and>
      (\<forall>tok. live uid = Some tok \<and> key tok \<noteq> k \<longrightarrow> r = None \<and> s' = live) \<and>
      (r = None \<longrightarrow> s' = live)"
  by (auto simp: pop_login_token_def pop_login_token_inner_def Let_def split: option.splits)

theorem pop_needs_exact_key_witness:
  "(let s = snd (generate_for_user binary64_round_32_64 1 ''5f1c'' Map.empty example_user)
    in revoke_expired_tokens 30 s (fst (str_partition CHR '':'' ''1000:5f'')) =
         Some (fst (generate_for_user binary64_round_32_64 1 ''5f1c'' Map.empty example_user)) \<and>
       key (fst (generate_for_user binary64_round_32_64 1 ''5f1c'' Map.empty example_user)) \<noteq> ''1000:5f'' \<and>
       pop_login_token 30 s ''1000:5f'' = (None, revoke_expired_tokens 30 s) \<and>
       revoke_expired_tokens 30 s = s \<and>
       fst (pop_login_token 30 s ''1000:5f1c'') =
         Some (fst (generate_for_user binary64_round_32_64 1 ''5f1c'' Map.empty example_user)))"
  using pop_needs_exact_key[of 30 "snd (generate_for_user binary64_round_32_64 1 ''5f1c'' Map.empty example_user)" "''1000:5f''"]
        pop_needs_exact_key[of 30 "snd (generate_for_user binary64_round_32_64 1 ''5f1c'' Map.empty example_user)" "''1000:5f1c''"]
  by (auto simp: generate_for_user_eq example_user_def str_int_1000 generate_token_key_def
      revoke_expired_tokens_def is_expired_def TOKEN_EXPIRE_TIME_def binary64_round_61 str_partition_def
      pop_login_token_def pop_login_token_inner_def split_beta Let_def fun_eq_iff)

text \<open>
  C6, as amended. A token generated at clock reading \<open>t0\<close> carries the expiry
  \<open>fl (t0 + TOKEN_EXPIRE_TIME)\<close>, the float sum of the reading and the lifetime, and
  \<^verbatim>\<open>pop_login_token\<close> with its key at reading \<open>t\<close> returns it exactly when \<open>t\<close> is at
  most that expiry, and nothing when \<open>t\<close> is greater; this holds whatever the rounding
  \<open>fl\<close> is. For a rounding that is monotone and a reading \<open>t\<close> that is a float, as under
  IEEE 754, the token is therefore returned whenever \<open>t - t0\<close> is at most
  \<^verbatim>\<open>TOKEN_EXPIRE_TIME\<close>, the boundary included. Operations in between do not change this
  as long as they are generations for other users and redemptions with other keys, and
  read the monotonic clock no later than \<open>t\<close>.
\<close>

theorem token_lifetime:
  assumes "\<forall>op \<in> set ops.
             leaves_token (user_id u) (key (fst (generate_for_user fl t0 hex s u))) t op"
  shows "let (tok, s1) = generate_for_user fl t0 hex s u;
             r = fst (pop_login_token t (run_token_ops fl ops s1) (key tok))
         in expires tok = fl (t0 + TOKEN_EXPIRE_TIME) \<and>
            r = (if t \<le> expires tok then Some tok else None) \<and>
            (mono fl \<and> fl t = t \<and> t - t0 \<le> TOKEN_EXPIRE_TIME \<longrightarrow> r = Some tok)"
proof -
  let ?tok = "fst (generate_for_user fl t0 hex s u)"
  let ?r = "fst (pop_login_token t (run_token_ops fl ops (snd (generate_for_user fl t0 hex s u)))
                   (key ?tok))"
  have e: "expires ?tok = fl (t0 + TOKEN_EXPIRE_TIME)" by (simp add: generate_for_user_eq)
  have r: "?r = (if t \<le> expires ?tok then Some ?tok else None)"
    using pop_after_generate_run[OF assms] e by simp
  have "?r = Some ?tok" if m: "mono fl" and f: "fl t = t" and d: "t - t0 \<le> TOKEN_EXPIRE_TIME"
  proof -
    from d have "t \<le> t0 + TOKEN_EXPIRE_TIME" by simp
    with m have "fl t \<le> fl (t0 + TOKEN_EXPIRE_TIME)" by (rule monoD)
    with f e have "t \<le> expires ?tok" by simp
    with r show ?thesis by simp
  qed
  with e r show ?thesis by (simp add: split_beta Let_def)
qed

theorem token_lifetime_witness:
  "leaves_token (user_id example_user)
     (key (fst (generate_for_user binary64_round_32_64 0 ''5f1c'' Map.empty example_user))) 60
     (GenerateForUser 1 ''77aa'' (example_user\<lparr>user_id := 1001\<rparr>)) \<and>
   leaves_token (user_id example_user)
     (key (fst (generate_for_user binary64_round_32_64 0 ''5f1c'' Map.empty example_user))) 60
     (PopToken 2 ''1000:0000'') \<and>
   mono binary64_round_32_64 \<and> binary64_round_32_64 60 = 60 \<and>
   60 - 0 \<le> TOKEN_EXPIRE_TIME \<and>
   (let (tok, s1) = generate_for_user binary64_round_32_64 0 ''5f1c'' Map.empty example_user
    in expires tok = 60 \<and>
       fst (pop_login_token 60
         (run_token_ops binary64_round_32_64
            [GenerateForUser 1 ''77aa'' (example_user\<lparr>user_id := 1001\<rparr>),
             PopToken 2 ''1000:0000''] s1) (key tok)) = Some tok)"
proof -
  let ?ops = "[GenerateForUser 1 ''77aa'' (example_user\<lparr>user_id := 1001\<rparr>),
               PopToken 2 ''1000:0000'']"
  have k: "key (fst (generate_for_user binary64_round_32_64 0 ''5f1c'' Map.empty example_user))
             = ''1000:5f1c''"
    by (simp add: generate_for_user_eq example_user_def str_int_1000 generate_token_key_def)
  have h: "\<forall>op \<in> set ?ops.
             leaves_token (user_id example_user)
               (key (fst (generate_for_user binary64_round_32_64 0 ''5f1c'' Map.empty
                            example_user))) 60 op"
    unfolding k by (simp add: example_user_def)
  have d: "(60::real) - 0 \<le> TOKEN_EXPIRE_TIME" by (simp add: TOKEN_EXPIRE_TIME_def)
  from token_lifetime[OF h] binary64_round_32_64_mono binary64_round_60 d h
  show ?thesis by (simp add: split_beta Let_def TOKEN_EXPIRE_TIME_def)
qed

text \<open>
  C6 as stated fails twice over. At the boundary: a token generated at reading 0 is still
  returned at reading 60, a full \<^verbatim>\<open>TOKEN_EXPIRE_TIME\<close> later. Past the boundary: with the
  generation at the float nearest to 0.1 and the redemption at the float nearest to 60.1,
  the elapsed time exceeds \<^verbatim>\<open>TOKEN_EXPIRE_TIME\<close> (by \<open>51 / 2 ^ 55\<close>), yet the float sum
  of the first reading and 60 is the second reading, and the token is returned.
\<close>

theorem token_redeemable_at_ttl_counterexample:
  "60 - 0 \<ge> TOKEN_EXPIRE_TIME \<and>
   fst (pop_login_token 60
          (snd (generate_for_user binary64_round_32_64 0 ''5f1c'' Map.empty example_user))
          (key (fst (generate_for_user binary64_round_32_64 0 ''5f1c'' Map.empty
                       example_user)))) =
     Some (fst (generate_for_user binary64_round_32_64 0 ''5f1c'' Map.empty example_user)) \<and>
   8458323050155213 / 2 ^ 47 - 3602879701896397 / 2 ^ 55 > TOKEN_EXPIRE_TIME \<and>
   fst (pop_login_token (8458323050155213 / 2 ^ 47)
          (snd (generate_for_user binary64_round_32_64 (3602879701896397 / 2 ^ 55) ''5f1c''
                  Map.empty example_user))
          (key (fst (generate_for_user binary64_round_32_64 (3602879701896397 / 2 ^ 55)
                       ''5f1c'' Map.empty example_user)))) =
     Some (fst (generate_for_user binary64_round_32_64 (3602879701896397 / 2 ^ 55) ''5f1c''
                  Map.empty example_user))"
proof -
  have a: "fst (pop_login_token 60
          (snd (generate_for_user binary64_round_32_64 0 ''5f1c'' Map.empty example_user))
          (key (fst (generate_for_user binary64_round_32_64 0 ''5f1c'' Map.empty
                       example_user)))) =
     Some (fst (generate_for_user binary64_round_32_64 0 ''5f1c'' Map.empty example_user))"
    using pop_after_generate[of 60 binary64_round_32_64 0 "''5f1c''" Map.empty example_user]
    by (simp add: TOKEN_EXPIRE_TIME_def binary64_round_60)
  have b: "fst (pop_login_token (8458323050155213 / 2 ^ 47)
          (snd (generate_for_user binary64_round_32_64 (3602879701896397 / 2 ^ 55) ''5f1c''
                  Map.empty example_user))
          (key (fst (generate_for_user binary64_round_32_64 (3602879701896397 / 2 ^ 55)
                       ''5f1c'' Map.empty example_user)))) =
     Some (fst (generate_for_user binary64_round_32_64 (3602879701896397 / 2 ^ 55) ''5f1c''
                  Map.empty example_user))"
    using pop_after_generate[of "8458323050155213 / 2 ^ 47" binary64_round_32_64
            "3602879701896397 / 2 ^ 55" "''5f1c''" Map.empty example_user]
    unfolding TOKEN_EXPIRE_TIME_def binary64_round_tenth by simp
  have c: "(60::real) - 0 \<ge> TOKEN_EXPIRE_TIME" by (simp add: TOKEN_EXPIRE_TIME_def)
  have d: "(8458323050155213 / 2 ^ 47 - 3602879701896397 / 2 ^ 55 :: real) > TOKEN_EXPIRE_TIME"
    by (simp add: TOKEN_EXPIRE_TIME_def)
  from a b c d show ?thesis by blast
qed

text \<open>
  C7. From the empty registry, after any history of holds, releases and disconnects the
  registry has one entry per held client, its keys are the set of held clients of the
  specification, and \<^verbatim>\<open>clients_count\<close> is the size of that set. In any registry state a
  second hold of the same client changes nothing, and a release or a disconnect of a
  client that is not held changes nothing.
\<close>

theorem count_is_number_of_held_clients:
  "let p = run_hold_ops ops (PublicDBusInterface_init sm) in
     distinct (map fst (hold_clients p)) \<and>
     set (map fst (hold_clients p)) = held_spec ops \<and>
     clients_count p = card (held_spec ops) \<and>
     hold_for_client w2 c (hold_for_client w1 c q) = hold_for_client w1 c q \<and>
     (c \<notin> set (map fst (hold_clients q)) \<longrightarrow>
        release_for_client c q = q \<and> on_hold_client_vanished c q = q)"
proof -
  let ?p0 = "PublicDBusInterface_init sm :: 'a PublicDBusInterface"
  have "distinct (map fst (hold_clients ?p0))" by (simp add: PublicDBusInterface_init_def)
  from run_hold_ops_keys[OF this, of ops]
  have d: "distinct (map fst (hold_clients (run_hold_ops ops ?p0)))"
    and s: "set (map fst (hold_clients (run_hold_ops ops ?p0))) = held_spec ops"
    by (simp_all add: run_hold_ops_def held_spec_def PublicDBusInterface_init_def)
  have "clients_count (run_hold_ops ops ?p0) = card (held_spec ops)"
    using distinct_card[OF d] s by (simp add: clients_count_def)
  then show ?thesis using d s hold_twice[of w2 c w1 q] release_not_held[of c q]
    by (simp add: Let_def on_hold_client_vanished_def)
qed

theorem count_is_number_of_held_clients_witness:
  "let p = run_hold_ops [Hold 7 '':1.5'', Hold 8 '':1.5'', Hold 9 '':1.6'', Release '':1.9'',
                         Vanished '':1.6''] (PublicDBusInterface_init ()) in
     hold_clients p = [('':1.5'', 7)] \<and> clients_count p = 1 \<and>
     held_spec [Hold 7 '':1.5'', Hold 8 '':1.5'', Hold 9 '':1.6'', Release '':1.9'',
                Vanished '':1.6''] = {'':1.5''} \<and>
     '':1.9'' \<notin> set (map fst (hold_clients p)) \<and> release_for_client '':1.9'' p = p"
  using count_is_number_of_held_clients[of "[Hold 7 '':1.5'', Hold 8 '':1.5'', Hold 9 '':1.6'', Release '':1.9'',
                         Vanished '':1.6'']" "()" 8 "'':1.9''" 7
         "run_hold_ops [Hold 7 '':1.5'', Hold 8 '':1.5'', Hold 9 '':1.6'', Release '':1.9'',
                         Vanished '':1.6''] (PublicDBusInterface_init ())"]
  by (simp add: run_hold_ops_def PublicDBusInterface_init_def hold_for_client_def
      release_for_client_def on_hold_client_vanished_def clients_count_def held_spec_def Let_def)

text \<open>
  C8. Starting from a fresh application, after any sequence of \<^verbatim>\<open>hold_with_token\<close> and
  \<^verbatim>\<open>release_with_token\<close> calls the hold count of the process (\<^verbatim>\<open>hold()\<close> calls minus
  \<^verbatim>\<open>release()\<close> calls) is the number of tokens in the set; asserting a token that is
  present and retracting one that is absent change nothing at all.
\<close>

theorem process_hold_count_is_token_count:
  "let a = run_token_calls cs (Application_init sm) in
     finite (hold_tokens a) \<and>
     use_count a = int (card (hold_tokens a)) \<and>
     (token \<in> hold_tokens a \<longrightarrow> hold_with_token token a = a) \<and>
     (token \<notin> hold_tokens a \<longrightarrow> release_with_token token a = a)"
proof -
  have "finite (hold_tokens (Application_init sm :: ('a, 'b) Application))"
       "use_count (Application_init sm :: ('a, 'b) Application) =
          int (card (hold_tokens (Application_init sm :: ('a, 'b) Application)))"
    by (simp_all add: Application_init_def)
  from run_token_calls_inv[OF this] show ?thesis
    by (simp add: Let_def hold_with_token_def release_with_token_def)
qed

theorem process_hold_count_is_token_count_witness:
  "let a = run_token_calls [Assert (1::nat), Assert 1, Retract 2, Assert 3, Retract 3]
             (Application_init ()) in
     hold_tokens a = {1} \<and> use_count a = 1 \<and>
     hold_with_token 1 a = a \<and> release_with_token 2 a = a"
  using process_hold_count_is_token_count
          [of "[Assert (1::nat), Assert 1, Retract 2, Assert 3, Retract 3]" "()" 1]
        process_hold_count_is_token_count
          [of "[Assert (1::nat), Assert 1, Retract 2, Assert 3, Retract 3]" "()" 2]
  by (simp add: run_token_calls_def Application_init_def hold_with_token_def
      release_with_token_def g_application_hold_def g_application_release_def Let_def)

text \<open>
  C9. With both \<^verbatim>\<open>--session\<close> and \<^verbatim>\<open>--system\<close> on the command line,
  \<^verbatim>\<open>do_handle_local_options\<close> selects the session bus and the system bus together,
  whatever the third option and the application's earlier state.
\<close>

theorem session_and_system_both_selected:
  "let (r, a') = do_handle_local_options
                   \<lparr>opt_session = Some True, opt_system = Some True, opt_stop_timeout = t\<rparr> a
   in use_session_bus a' = Some True \<and> use_system_bus a' = Some True"
  by (simp add: do_handle_local_options_def Let_def split: option.splits)

text \<open>
  C10. Keys that cannot match. In an application whose store was built by the manager from
  the empty one, a key without a colon (the empty key among them) or a key whose prefix
  names no stored token is answered with nothing: \<^verbatim>\<open>pop_login_token\<close> returns \<^verbatim>\<open>None\<close>,
  \<^verbatim>\<open>CheckLoginToken\<close> replies with the empty dictionary, the application changes only
  by the purge of expired tokens, and every token that has not expired stays. The model has
  no failure branch because the code has none on a string key.
\<close>

theorem malformed_key_is_absent:
  assumes "login_token_manager a = run_token_ops fl ops Map.empty"
    and "CHR '':'' \<notin> set k \<or> login_token_manager a (fst (str_partition CHR '':'' k)) = None"
  shows "pop_login_token now (login_token_manager a) k =
           (None, revoke_expired_tokens now (login_token_manager a)) \<and>
         on_check_login_token now k a =
           ([], a\<lparr>login_token_manager := revoke_expired_tokens now (login_token_manager a)\<rparr>) \<and>
         (\<forall>uid t. login_token_manager a uid = Some t \<and> \<not> is_expired now t \<longrightarrow>
            revoke_expired_tokens now (login_token_manager a) uid = Some t)"
proof -
  let ?s = "login_token_manager a"
  have wf: "wf_store ?s" using assms(1) wf_store_reachable by simp
  have miss: "pop_login_token now ?s k = (None, revoke_expired_tokens now ?s)"
  proof (rule pop_login_token_miss)
    fix t assume *: "revoke_expired_tokens now ?s (fst (str_partition CHR '':'' k)) = Some t"
    then have st: "?s (fst (str_partition CHR '':'' k)) = Some t" by (simp add: revoke_Some_iff)
    with assms(2) have "CHR '':'' \<notin> set k" by auto
    moreover from wf st have "CHR '':'' \<in> set (key t)"
      unfolding wf_store_def using generated_key_has_colon by metis
    ultimately show "key t \<noteq> k" by auto
  qed
  have "on_check_login_token now k a =
          ([], a\<lparr>login_token_manager := revoke_expired_tokens now ?s\<rparr>)"
    using miss
    by (simp add: on_check_login_token_def check_login_token_def reset_inactivity_timeout_def
        g_application_hold_def g_application_release_def Let_def)
  with miss show ?thesis by (simp add: revoke_Some_iff)
qed

theorem malformed_key_is_absent_witness:
  "(let a = (Application_init () :: (unit, unit) Application)
              \<lparr>login_token_manager := run_token_ops binary64_round_32_64 [GenerateForUser 1 ''5f1c'' example_user] Map.empty\<rparr>
    in login_token_manager a = run_token_ops binary64_round_32_64 [GenerateForUser 1 ''5f1c'' example_user] Map.empty \<and>
       CHR '':'' \<notin> set ''1000'' \<and> CHR '':'' \<notin> set '''' \<and>
       login_token_manager a (fst (str_partition CHR '':'' ''1001:5f1c'')) = None \<and>
       fst (on_check_login_token 30 ''1000'' a) = [] \<and>
       fst (on_check_login_token 30 '''' a) = [] \<and>
       fst (on_check_login_token 30 ''1001:5f1c'' a) = [] \<and>
       login_token_manager (snd (on_check_login_token 30 ''1000'' a)) ''1000'' =
         Some (fst (generate_for_user binary64_round_32_64 1 ''5f1c'' Map.empty example_user)))"
  using malformed_key_is_absent[where fl = binary64_round_32_64 and ops = "[GenerateForUser 1 ''5f1c'' example_user]" and k = "''1000''" and now = 30
          and a = "(Application_init () :: (unit, unit) Application)
              \<lparr>login_token_manager := run_token_ops binary64_round_32_64 [GenerateForUser 1 ''5f1c'' example_user] Map.empty\<rparr>"]
        malformed_key_is_absent[where fl = binary64_round_32_64 and ops = "[GenerateForUser 1 ''5f1c'' example_user]" and k = "''''" and now = 30
          and a = "(Application_init () :: (unit, unit) Application)
              \<lparr>login_token_manager := run_token_ops binary64_round_32_64 [GenerateForUser 1 ''5f1c'' example_user] Map.empty\<rparr>"]
        malformed_key_is_absent[where fl = binary64_round_32_64 and ops = "[GenerateForUser 1 ''5f1c'' example_user]" and k = "''1001:5f1c''" and now = 30
          and a = "(Application_init () :: (unit, unit) Application)
              \<lparr>login_token_manager := run_token_ops binary64_round_32_64 [GenerateForUser 1 ''5f1c'' example_user] Map.empty\<rparr>"]
  by (simp add: generate_for_user_eq example_user_def str_int_1000 generate_token_key_def
      run_token_ops_def revoke_expired_tokens_def is_expired_def TOKEN_EXPIRE_TIME_def
      binary64_round_61
      str_partition_def split_beta Let_def)

end
